theory Spec2Isabelle
  imports Complex_Main "HOL-Library.AList" "HOL-Library.Multiset"
begin

section \<open>Data model of script.js\<close>

text \<open>
  The script receives the parsed content of \<open>data.json\<close>: an array of battle objects.
  Only the fields that \<open>calculateElo\<close>, \<open>displayBattleList\<close> and the lookup of
  \<open>displayBattleDetails\<close> read are modelled.

  \<^item> \<open>timestamp_start\<close> is the time value of \<open>new Date(battle.timestamp_start)\<close>, an
    integer number of milliseconds; a date that does not parse (time value NaN) is outside
    the model.
  \<^item> \<open>battle_outcome\<close> is \<open>None\<close> when the property is absent, \<open>null\<close> or undefined.
  \<^item> JavaScript numbers are IEEE-754 doubles. A finite double is the real number it
    denotes, so a rating is a real number. The script rounds the result of every
    operation of lines 57 to 74 to a double; \<open>process_battle_with\<close> takes these
    operations as a parameter, and \<open>process_battle\<close> is the loop body with the exact
    operations of the reals, where \<open>Math.pow(10, x)\<close> is \<open>10 powr x\<close>. The constants
    0, 0.5, 1, 10, 32, 400 and 1500 are doubles. The counter \<open>battlesPlayed\<close> is a
    natural number.
\<close>

record model_info =
  name :: string

record battle =
  battle_id :: string
  model_A_info :: model_info
  model_B_info :: model_info
  timestamp_start :: int
  battle_outcome :: "string option"

record elo_entry =
  rating :: real
  battlesPlayed :: nat

text \<open>
  The object \<open>eloScores\<close> is the association list of what \<open>eloScores[name]\<close> holds,
  with distinct keys, in the order of the first assignment to each name. Assignment
  \<open>eloScores[name] = entry\<close> is \<open>AList.update\<close>, the in-place change of an entry is
  \<open>AList.map_entry\<close>, reading is \<open>map_of\<close>.

  \<open>eloScores\<close> is a plain object (line 30), so the pair under the key \<open>__proto__\<close> is
  not a property of its own: assigning an entry under that name replaces the prototype of
  \<open>eloScores\<close>, reading the name yields the prototype, and lines 54 to 77 read and change
  the entry through it like any other. \<open>Object_entries\<close> lists the own properties, which
  are all pairs but that one.
\<close>

type_synonym elo_scores = "(string \<times> elo_entry) list"

definition ELO_K_FACTOR :: real where
  "ELO_K_FACTOR = 32"

definition ELO_DEFAULT_RATING :: real where
  "ELO_DEFAULT_RATING = 1500"

definition default_entry :: elo_entry where
  "default_entry = \<lparr>rating = ELO_DEFAULT_RATING, battlesPlayed = 0\<rparr>"

section \<open>Built-ins: Set and Array.prototype.sort\<close>

text \<open>\<open>Set.prototype.add\<close>: a set keeps its members in insertion order, once each.\<close>

definition set_add :: "'a \<Rightarrow> 'a list \<Rightarrow> 'a list" where
  "set_add x s = (if x \<in> set s then s else s @ [x])"

text \<open>
  \<open>Array.prototype.sort(cmp)\<close> is a stable sort: an element stays behind the elements
  before it that the comparator does not put after it. Insertion from the right computes
  that order; \<open>cmp a b \<le> 0\<close> reads ``a is not after b''.
\<close>

fun sort_insert :: "('a \<Rightarrow> 'a \<Rightarrow> int) \<Rightarrow> 'a \<Rightarrow> 'a list \<Rightarrow> 'a list" where
  "sort_insert cmp x [] = [x]"
| "sort_insert cmp x (y # ys) =
     (if cmp x y \<le> 0 then x # y # ys else y # sort_insert cmp x ys)"

definition array_sort :: "('a \<Rightarrow> 'a \<Rightarrow> int) \<Rightarrow> 'a list \<Rightarrow> 'a list" where
  "array_sort cmp xs = foldr (sort_insert cmp) xs []"

section \<open>calculateElo\<close>

text \<open>Lines 34 to 37: the names of both slots of every battle, in array order.\<close>

definition modelNames :: "battle list \<Rightarrow> string list" where
  "modelNames battles =
     fold (\<lambda>battle s. set_add (name (model_B_info battle))
                        (set_add (name (model_A_info battle)) s)) battles []"

text \<open>
  Lines 39 to 41: every name gets a fresh entry; the entry of the name \<open>__proto__\<close>
  becomes the prototype of \<open>eloScores\<close> and no own property.
\<close>

definition init_scores :: "string list \<Rightarrow> elo_scores" where
  "init_scores names = fold (\<lambda>n eloScores. AList.update n default_entry eloScores) names []"

text \<open>Line 44: the comparator of the ascending sort.\<close>

definition by_start_asc :: "battle \<Rightarrow> battle \<Rightarrow> int" where
  "by_start_asc a b = timestamp_start a - timestamp_start b"

text \<open>Lines 51 and 52: an entry is created when the name has none.\<close>

definition ensure_entry :: "string \<Rightarrow> elo_scores \<Rightarrow> elo_scores" where
  "ensure_entry n eloScores =
     (if map_of eloScores n = None then AList.update n default_entry eloScores else eloScores)"

text \<open>Lines 57 and 58, as a function of the own and the other rating.\<close>

definition expected :: "real \<Rightarrow> real \<Rightarrow> real" where
  "expected own other = 1 / (1 + 10 powr ((other - own) / 400))"

text \<open>Lines 62 to 71: the pair \<open>(scoreA, scoreB)\<close>.\<close>

definition actual_scores :: "battle \<Rightarrow> real \<times> real" where
  "actual_scores battle =
     (let modelA = name (model_A_info battle);
          modelB = name (model_B_info battle)
      in if battle_outcome battle = Some (modelA @ ''_wins'') then (1, 0)
         else if battle_outcome battle = Some (modelB @ ''_wins'') then (0, 1)
         else (1 / 2, 1 / 2))"

definition add_rating :: "real \<Rightarrow> elo_entry \<Rightarrow> elo_entry" where
  "add_rating d e = e\<lparr>rating := rating e + d\<rparr>"

definition inc_played :: "elo_entry \<Rightarrow> elo_entry" where
  "inc_played e = e\<lparr>battlesPlayed := battlesPlayed e + 1\<rparr>"

text \<open>Lines 47 to 77: the body of the second \<open>forEach\<close>, one battle.\<close>

definition process_battle :: "battle \<Rightarrow> elo_scores \<Rightarrow> elo_scores" where
  "process_battle battle eloScores0 =
     (let modelA = name (model_A_info battle);
          modelB = name (model_B_info battle);
          eloScores = ensure_entry modelB (ensure_entry modelA eloScores0);
          ratingA = rating (the (map_of eloScores modelA));
          ratingB = rating (the (map_of eloScores modelB));
          expectedA = expected ratingA ratingB;
          expectedB = expected ratingB ratingA;
          (scoreA, scoreB) = actual_scores battle;
          s1 = AList.map_entry modelA (add_rating (ELO_K_FACTOR * (scoreA - expectedA))) eloScores;
          s2 = AList.map_entry modelB (add_rating (ELO_K_FACTOR * (scoreB - expectedB))) s1;
          s3 = AList.map_entry modelA inc_played s2
      in AList.map_entry modelB inc_played s3)"

text \<open>
  The same loop body with the arithmetic of numbers as a parameter: addition, subtraction,
  multiplication and division as the engine computes them on doubles, and
  \<open>Math.pow\<close>. With \<open>exact\<close>, the operations of the reals, it is \<open>process_battle\<close>.
\<close>

record arith =
  ar_add :: "real \<Rightarrow> real \<Rightarrow> real"
  ar_sub :: "real \<Rightarrow> real \<Rightarrow> real"
  ar_mul :: "real \<Rightarrow> real \<Rightarrow> real"
  ar_div :: "real \<Rightarrow> real \<Rightarrow> real"
  ar_pow :: "real \<Rightarrow> real \<Rightarrow> real"

definition exact :: arith where
  "exact = \<lparr>ar_add = (+), ar_sub = (-), ar_mul = (*), ar_div = (/), ar_pow = (powr)\<rparr>"

definition expected_with :: "arith \<Rightarrow> real \<Rightarrow> real \<Rightarrow> real" where
  "expected_with ar own other =
     ar_div ar 1 (ar_add ar 1 (ar_pow ar 10 (ar_div ar (ar_sub ar other own) 400)))"

definition add_rating_with :: "arith \<Rightarrow> real \<Rightarrow> elo_entry \<Rightarrow> elo_entry" where
  "add_rating_with ar d e = e\<lparr>rating := ar_add ar (rating e) d\<rparr>"

definition process_battle_with :: "arith \<Rightarrow> battle \<Rightarrow> elo_scores \<Rightarrow> elo_scores" where
  "process_battle_with ar battle eloScores0 =
     (let modelA = name (model_A_info battle);
          modelB = name (model_B_info battle);
          eloScores = ensure_entry modelB (ensure_entry modelA eloScores0);
          ratingA = rating (the (map_of eloScores modelA));
          ratingB = rating (the (map_of eloScores modelB));
          expectedA = expected_with ar ratingA ratingB;
          expectedB = expected_with ar ratingB ratingA;
          (scoreA, scoreB) = actual_scores battle;
          s1 = AList.map_entry modelA
                 (add_rating_with ar (ar_mul ar ELO_K_FACTOR (ar_sub ar scoreA expectedA))) eloScores;
          s2 = AList.map_entry modelB
                 (add_rating_with ar (ar_mul ar ELO_K_FACTOR (ar_sub ar scoreB expectedB))) s1;
          s3 = AList.map_entry modelA inc_played s2
      in AList.map_entry modelB inc_played s3)"

text \<open>
  \<open>calculateElo\<close> returns \<open>eloScores\<close> and sorts the array it was given in place; the
  second component is that array after the call.
\<close>

definition calculateElo :: "battle list \<Rightarrow> elo_scores \<times> battle list" where
  "calculateElo battles =
     (let eloScores = init_scores (modelNames battles);
          sorted_battles = array_sort by_start_asc battles
      in (fold process_battle sorted_battles eloScores, sorted_battles))"

definition calculateElo_with :: "arith \<Rightarrow> battle list \<Rightarrow> elo_scores \<times> battle list" where
  "calculateElo_with ar battles =
     (let eloScores = init_scores (modelNames battles);
          sorted_battles = array_sort by_start_asc battles
      in (fold (process_battle_with ar) sorted_battles eloScores, sorted_battles))"

section \<open>displayEloTable: the entries of the result\<close>

text \<open>
  Line 86: \<open>Object.entries(eloScores)\<close>, the own properties of the object that
  \<open>calculateElo\<close> returned. They are the entries of the mapping from participants to
  ratings and games played.
\<close>

definition Object_entries :: "elo_scores \<Rightarrow> (string \<times> elo_entry) list" where
  "Object_entries eloScores = filter (\<lambda>p. fst p \<noteq> ''__proto__'') eloScores"

section \<open>displayBattleList and the lookup of displayBattleDetails\<close>

text \<open>Line 110: the comparator of the descending sort, applied to a copy of the array.\<close>

definition by_start_desc :: "battle \<Rightarrow> battle \<Rightarrow> int" where
  "by_start_desc a b = timestamp_start b - timestamp_start a"

text \<open>Line 114: the text of one list item.\<close>

definition li_text :: "battle \<Rightarrow> string" where
  "li_text battle =
     ''Battle ID: '' @ battle_id battle @ '' ('' @ name (model_A_info battle) @ '' vs ''
       @ name (model_B_info battle) @ '') - Outcome: ''
       @ (case battle_outcome battle of
            None \<Rightarrow> ''N/A''
          | Some out \<Rightarrow> if out = [] then ''N/A'' else out)"

text \<open>
  \<open>displayBattleList\<close>: the first argument is the caller's array, the second the list
  element (\<open>None\<close> when the page has none, else the texts of its items). The result is
  the list element after the call, and the caller's array after the call.
\<close>

definition displayBattleList :: "battle list \<Rightarrow> string list option \<Rightarrow> string list option \<times> battle list" where
  "displayBattleList battles battleListUl =
     (case battleListUl of
        None \<Rightarrow> (None, battles)
      | Some _ \<Rightarrow>
          (let sortedBattles = array_sort by_start_desc battles
           in (Some (if sortedBattles = [] then [''No battles recorded yet.'']
                     else map li_text sortedBattles), battles)))"

text \<open>Line 139: \<open>battles.find(b => b.battle_id === battleId)\<close>.\<close>

definition find_battle :: "string \<Rightarrow> battle list \<Rightarrow> battle option" where
  "find_battle battleId battles = find (\<lambda>b. battle_id b = battleId) battles"

text \<open>
  \<open>displayBattleDetails\<close>: the last argument is the content of the details element
  (\<open>None\<close> when the page has none), the result is its content after the call. The markup
  of a battle that was found (lines 145 to 192) is the parameter \<open>details_html\<close>.
\<close>

definition displayBattleDetails ::
    "(battle \<Rightarrow> string) \<Rightarrow> string \<Rightarrow> battle list \<Rightarrow> string option \<Rightarrow> string option" where
  "displayBattleDetails details_html battleId battles battleDetailsContentDiv =
     (case battleDetailsContentDiv of
        None \<Rightarrow> None
      | Some _ \<Rightarrow>
          (case find_battle battleId battles of
             None \<Rightarrow> Some ''<p>Battle not found.</p>''
           | Some battle \<Rightarrow> Some (details_html battle)))"

section \<open>Observations on the result\<close>

text \<open>The distinct participants of a collection: the names in either slot of a battle.\<close>

definition participants :: "battle list \<Rightarrow> string set" where
  "participants battles =
     (\<lambda>b. name (model_A_info b)) ` set battles \<union> (\<lambda>b. name (model_B_info b)) ` set battles"

text \<open>
  Lines 51 to 55: the entry the loop works on for a name, which is the default entry when
  the name has none.
\<close>

definition entry_in :: "elo_scores \<Rightarrow> string \<Rightarrow> elo_entry" where
  "entry_in eloScores n =
     (case map_of eloScores n of None \<Rightarrow> default_entry | Some e \<Rightarrow> e)"

text \<open>
  The same loop body on the map that an association list denotes; \<open>map_of\<close> takes
  \<open>process_battle\<close> to \<open>process_map\<close>.
\<close>

definition ensure_map :: "string \<Rightarrow> (string \<rightharpoonup> elo_entry) \<Rightarrow> (string \<rightharpoonup> elo_entry)" where
  "ensure_map n m = (if m n = None then m(n \<mapsto> default_entry) else m)"

definition entry_map :: "string \<Rightarrow> (elo_entry \<Rightarrow> elo_entry) \<Rightarrow> (string \<rightharpoonup> elo_entry) \<Rightarrow> (string \<rightharpoonup> elo_entry)" where
  "entry_map k f m = m(k := map_option f (m k))"

definition process_map :: "battle \<Rightarrow> (string \<rightharpoonup> elo_entry) \<Rightarrow> (string \<rightharpoonup> elo_entry)" where
  "process_map battle m0 =
     (let modelA = name (model_A_info battle);
          modelB = name (model_B_info battle);
          m = ensure_map modelB (ensure_map modelA m0);
          ratingA = rating (the (m modelA));
          ratingB = rating (the (m modelB));
          dA = ELO_K_FACTOR * (fst (actual_scores battle) - expected ratingA ratingB);
          dB = ELO_K_FACTOR * (snd (actual_scores battle) - expected ratingB ratingA)
      in entry_map modelB inc_played (entry_map modelA inc_played
           (entry_map modelB (add_rating dB) (entry_map modelA (add_rating dA) m))))"

section \<open>Example data\<close>

definition mk_battle :: "string \<Rightarrow> string \<Rightarrow> string \<Rightarrow> int \<Rightarrow> string option \<Rightarrow> battle" where
  "mk_battle i a b t out =
     \<lparr>battle_id = i, model_A_info = \<lparr>name = a\<rparr>, model_B_info = \<lparr>name = b\<rparr>,
      timestamp_start = t, battle_outcome = out\<rparr>"

section \<open>The sort and the name set\<close>

lemma sort_insert_asc: "sort_insert by_start_asc x ys = insort_key timestamp_start x ys"
  by (induction ys) (simp_all add: by_start_asc_def)

lemma array_sort_asc: "array_sort by_start_asc xs = sort_key timestamp_start xs"
  by (induction xs) (simp_all add: array_sort_def sort_insert_asc)

lemma set_set_add: "set (set_add x s) = insert x (set s)"
  by (auto simp: set_add_def)

lemma distinct_set_add: "distinct s \<Longrightarrow> distinct (set_add x s)"
  by (simp add: set_add_def)

lemma set_fold_names:
  "set (fold (\<lambda>battle s. set_add (name (model_B_info battle)) (set_add (name (model_A_info battle)) s)) bs acc)
     = set acc \<union> participants bs"
  by (induction bs arbitrary: acc) (auto simp: set_set_add participants_def)

lemma distinct_fold_names:
  "distinct acc \<Longrightarrow> distinct (fold (\<lambda>battle s. set_add (name (model_B_info battle)) (set_add (name (model_A_info battle)) s)) bs acc)"
  by (induction bs arbitrary: acc) (simp_all add: distinct_set_add)

lemma set_modelNames: "set (modelNames bs) = participants bs"
  by (simp add: modelNames_def set_fold_names)

lemma distinct_modelNames: "distinct (modelNames bs)"
  by (simp add: modelNames_def distinct_fold_names)

lemma map_of_fold_update:
  "map_of (fold (\<lambda>n sc. AList.update n d sc) ns acc) = (\<lambda>n. if n \<in> set ns then Some d else map_of acc n)"
  by (induction ns arbitrary: acc) (auto simp: update_conv' fun_eq_iff)

lemma map_of_init_scores:
  "map_of (init_scores ns) = (\<lambda>n. if n \<in> set ns then Some default_entry else None)"
  by (auto simp: init_scores_def map_of_fold_update fun_eq_iff)

lemma keys_fold_update:
  "map fst (fold (\<lambda>n sc. AList.update n d sc) ns acc) = fold set_add ns (map fst acc)"
  by (induction ns arbitrary: acc) (simp_all add: update_keys set_add_def)

lemma fold_set_add_distinct:
  "distinct (acc @ ns) \<Longrightarrow> fold set_add ns acc = acc @ ns"
  by (induction ns arbitrary: acc) (simp_all add: set_add_def)

lemma keys_init_scores: "distinct ns \<Longrightarrow> map fst (init_scores ns) = ns"
  using fold_set_add_distinct[of "[]" ns] by (simp add: init_scores_def keys_fold_update)

section \<open>The loop body on maps\<close>

lemma map_of_ensure_entry: "map_of (ensure_entry n sc) = ensure_map n (map_of sc)"
  by (simp add: ensure_entry_def ensure_map_def update_conv')

lemma map_of_entry: "map_of (AList.map_entry k f sc) = entry_map k f (map_of sc)"
  by (simp add: entry_map_def map_of_map_entry fun_eq_iff split: option.splits)

lemma map_of_process_battle: "map_of (process_battle b sc) = process_map b (map_of sc)"
  by (simp add: process_battle_def process_map_def Let_def map_of_ensure_entry map_of_entry
           split: prod.splits)

lemma map_of_fold_process:
  "map_of (fold process_battle bs sc) = fold process_map bs (map_of sc)"
  by (induction bs arbitrary: sc) (simp_all add: map_of_process_battle)

lemma entry_in_process_battle:
  "entry_in (process_battle b sc) n =
     (let modelA = name (model_A_info b);
          modelB = name (model_B_info b);
          ratingA = rating (entry_in sc modelA);
          ratingB = rating (entry_in sc modelB);
          dA = ELO_K_FACTOR * (fst (actual_scores b) - expected ratingA ratingB);
          dB = ELO_K_FACTOR * (snd (actual_scores b) - expected ratingB ratingA)
      in if n = modelA \<and> n = modelB
           then inc_played (inc_played (add_rating dB (add_rating dA (entry_in sc n))))
         else if n = modelA then inc_played (add_rating dA (entry_in sc n))
         else if n = modelB then inc_played (add_rating dB (entry_in sc n))
         else entry_in sc n)"
proof -
  let ?A = "name (model_A_info b)" and ?B = "name (model_B_info b)"
  let ?m = "map_of sc"
  show ?thesis
  proof (cases "?A = ?B")
    case True
    then show ?thesis
      by (cases "?m ?A")
         (simp_all add: entry_in_def map_of_process_battle process_map_def Let_def
            ensure_map_def entry_map_def)
  next
    case False
    then show ?thesis
      by (cases "?m ?A"; cases "?m ?B")
         (auto simp add: entry_in_def map_of_process_battle process_map_def Let_def
            ensure_map_def entry_map_def)
  qed
qed

section \<open>The loop body in any arithmetic\<close>

lemma expected_with_exact: "expected_with exact own other = expected own other"
  by (simp add: expected_with_def expected_def exact_def)

lemma add_rating_with_exact: "add_rating_with exact d = add_rating d"
  by (simp add: add_rating_with_def add_rating_def exact_def fun_eq_iff)

lemma process_battle_with_exact: "process_battle_with exact b sc = process_battle b sc"
  by (simp add: process_battle_with_def process_battle_def expected_with_exact
        add_rating_with_exact Let_def) (simp add: exact_def)

lemma calculateElo_with_exact: "calculateElo_with exact bs = calculateElo bs"
proof -
  have "process_battle_with exact = process_battle"
    by (rule ext, rule ext) (rule process_battle_with_exact)
  then show ?thesis by (simp add: calculateElo_with_def calculateElo_def)
qed

lemma entry_in_updates:
  "entry_in (AList.map_entry B inc_played (AList.map_entry A inc_played
      (AList.map_entry B fB (AList.map_entry A fA (ensure_entry B (ensure_entry A sc)))))) n =
     (if n = A \<and> n = B then inc_played (inc_played (fB (fA (entry_in sc n))))
      else if n = A then inc_played (fA (entry_in sc n))
      else if n = B then inc_played (fB (entry_in sc n))
      else entry_in sc n)"
proof (cases "A = B")
  case True
  then show ?thesis
    by (cases "map_of sc A")
       (simp_all add: entry_in_def map_of_entry map_of_ensure_entry ensure_map_def entry_map_def)
next
  case False
  then show ?thesis
    by (cases "map_of sc A"; cases "map_of sc B")
       (auto simp add: entry_in_def map_of_entry map_of_ensure_entry ensure_map_def entry_map_def)
qed

lemma read_after_ensure:
  "the (map_of (ensure_entry B (ensure_entry A sc)) A) = entry_in sc A"
  "the (map_of (ensure_entry B (ensure_entry A sc)) B) = entry_in sc B"
  by (cases "map_of sc A"; cases "map_of sc B";
      auto simp add: entry_in_def map_of_ensure_entry ensure_map_def)+

lemma entry_in_process_battle_with:
  "entry_in (process_battle_with ar b sc) n =
     (let modelA = name (model_A_info b);
          modelB = name (model_B_info b);
          ratingA = rating (entry_in sc modelA);
          ratingB = rating (entry_in sc modelB);
          dA = ar_mul ar ELO_K_FACTOR (ar_sub ar (fst (actual_scores b)) (expected_with ar ratingA ratingB));
          dB = ar_mul ar ELO_K_FACTOR (ar_sub ar (snd (actual_scores b)) (expected_with ar ratingB ratingA))
      in if n = modelA \<and> n = modelB
           then inc_played (inc_played (add_rating_with ar dB (add_rating_with ar dA (entry_in sc n))))
         else if n = modelA then inc_played (add_rating_with ar dA (entry_in sc n))
         else if n = modelB then inc_played (add_rating_with ar dB (entry_in sc n))
         else entry_in sc n)"
  by (simp only: process_battle_with_def Let_def split_beta read_after_ensure entry_in_updates)

section \<open>Sums over the entries\<close>

lemma keys_map_entry: "map fst (AList.map_entry k f al) = map fst al"
  by (induction al) simp_all

lemma sum_map_entry_shift:
  fixes g :: "'v \<Rightarrow> 'm::comm_monoid_add"
  assumes "map_of al k \<noteq> None" and "\<And>e. g (f e) = g e + c"
  shows "(\<Sum>p\<leftarrow>AList.map_entry k f al. g (snd p)) = (\<Sum>p\<leftarrow>al. g (snd p)) + c"
  using assms(1)
proof (induction al)
  case Nil
  then show ?case by simp
next
  case (Cons p ps)
  show ?case
  proof (cases "fst p = k")
    case True
    then show ?thesis by (simp add: assms(2) ac_simps)
  next
    case False
    with Cons show ?thesis by (simp add: ac_simps)
  qed
qed

lemma keys_ensure_entry_present: "map_of sc n \<noteq> None \<Longrightarrow> ensure_entry n sc = sc"
  by (auto simp: ensure_entry_def)

lemma present_map_entry: "map_of (AList.map_entry k f al) n \<noteq> None \<longleftrightarrow> map_of al n \<noteq> None"
  by (simp add: map_of_map_entry split: option.splits)

lemma played_sum_inc:
  "map_of al k \<noteq> None \<Longrightarrow>
   (\<Sum>p\<leftarrow>AList.map_entry k inc_played al. battlesPlayed (snd p)) = (\<Sum>p\<leftarrow>al. battlesPlayed (snd p)) + 1"
  by (rule sum_map_entry_shift[where g = battlesPlayed and f = inc_played and c = 1])
     (simp_all add: inc_played_def)

lemma played_sum_add:
  "(\<Sum>p\<leftarrow>AList.map_entry k (add_rating d) al. battlesPlayed (snd p)) = (\<Sum>p\<leftarrow>al. battlesPlayed (snd p))"
  by (induction al) (simp_all add: add_rating_def)

lemma rating_sum_inc:
  "(\<Sum>p\<leftarrow>AList.map_entry k inc_played al. rating (snd p)) = (\<Sum>p\<leftarrow>al. rating (snd p))"
  by (induction al) (simp_all add: inc_played_def)

lemma rating_sum_add:
  "map_of al k \<noteq> None \<Longrightarrow>
   (\<Sum>p\<leftarrow>AList.map_entry k (add_rating d) al. rating (snd p)) = (\<Sum>p\<leftarrow>al. rating (snd p)) + d"
  by (rule sum_map_entry_shift[where g = rating and f = "add_rating d" and c = d])
     (simp_all add: add_rating_def)

section \<open>Expected and actual scores\<close>

lemma logistic_pair:
  assumes pos: "0 < (x::real)"
  shows "1 / (1 + x) + 1 / (1 + 1 / x) = 1"
proof -
  have e: "1 / (1 + 1 / x) = x / (1 + x)"
    using pos by (simp add: field_simps)
  have "1 / (1 + x) + x / (1 + x) = (1 + x) / (1 + x)"
    by (simp only: add_divide_distrib)
  also have "\<dots> = 1" using pos by simp
  finally show ?thesis by (simp only: e)
qed

lemma expected_sum: "expected a b + expected b a = 1"
proof -
  let ?x = "10 powr ((b - a) / 400)"
  have pos: "0 < ?x" by simp
  have inv: "10 powr ((a - b) / 400) = 1 / ?x"
  proof -
    have "(a - b) / 400 = - ((b - a) / 400)" by argo
    then show ?thesis by (simp only: powr_minus_divide)
  qed
  have "expected a b + expected b a = 1 / (1 + ?x) + 1 / (1 + 1 / ?x)"
    by (simp only: expected_def inv)
  also have "\<dots> = 1"
    using pos by (rule logistic_pair)
  finally show ?thesis .
qed

lemma actual_scores_sum: "fst (actual_scores b) + snd (actual_scores b) = 1"
  by (simp add: actual_scores_def Let_def)

lemma expected_same: "expected r r = 1 / 2"
  by (simp add: expected_def)

section \<open>One battle, then all of them\<close>

lemma process_battle_present:
  assumes A: "map_of sc (name (model_A_info b)) \<noteq> None"
      and B: "map_of sc (name (model_B_info b)) \<noteq> None"
  shows "map fst (process_battle b sc) = map fst sc"
    and "(\<Sum>p\<leftarrow>process_battle b sc. battlesPlayed (snd p)) = (\<Sum>p\<leftarrow>sc. battlesPlayed (snd p)) + 2"
    and "(\<Sum>p\<leftarrow>process_battle b sc. rating (snd p)) = (\<Sum>p\<leftarrow>sc. rating (snd p))
           + ELO_K_FACTOR * (fst (actual_scores b) - expected (rating (entry_in sc (name (model_A_info b)))) (rating (entry_in sc (name (model_B_info b)))))
           + ELO_K_FACTOR * (snd (actual_scores b) - expected (rating (entry_in sc (name (model_B_info b)))) (rating (entry_in sc (name (model_A_info b)))))"
proof -
  let ?A = "name (model_A_info b)" and ?B = "name (model_B_info b)"
  obtain sA sB where sc: "actual_scores b = (sA, sB)" by (cases "actual_scores b")
  let ?rA = "rating (the (map_of sc ?A))" and ?rB = "rating (the (map_of sc ?B))"
  let ?dA = "ELO_K_FACTOR * (sA - expected ?rA ?rB)"
  let ?dB = "ELO_K_FACTOR * (sB - expected ?rB ?rA)"
  let ?s1 = "AList.map_entry ?A (add_rating ?dA) sc"
  let ?s2 = "AList.map_entry ?B (add_rating ?dB) ?s1"
  let ?s3 = "AList.map_entry ?A inc_played ?s2"
  let ?s4 = "AList.map_entry ?B inc_played ?s3"
  have ens: "ensure_entry ?B (ensure_entry ?A sc) = sc"
    using A B by (simp add: keys_ensure_entry_present)
  have pb: "process_battle b sc = ?s4"
    by (simp add: process_battle_def Let_def ens sc)
  have ei: "rating (entry_in sc ?A) = ?rA" "rating (entry_in sc ?B) = ?rB"
    using A B by (auto simp: entry_in_def)
  have p1: "map_of ?s1 ?B \<noteq> None" by (rule iffD2[OF present_map_entry B])
  have p2: "map_of ?s2 ?A \<noteq> None" by (rule iffD2[OF present_map_entry iffD2[OF present_map_entry A]])
  have p3: "map_of ?s3 ?B \<noteq> None" by (rule iffD2[OF present_map_entry iffD2[OF present_map_entry p1]])
  show "map fst (process_battle b sc) = map fst sc"
    by (simp add: pb keys_map_entry)
  show "(\<Sum>p\<leftarrow>process_battle b sc. battlesPlayed (snd p)) = (\<Sum>p\<leftarrow>sc. battlesPlayed (snd p)) + 2"
    unfolding pb
    by (simp only: played_sum_inc[OF p3] played_sum_inc[OF p2] played_sum_add)
  show "(\<Sum>p\<leftarrow>process_battle b sc. rating (snd p)) = (\<Sum>p\<leftarrow>sc. rating (snd p))
           + ELO_K_FACTOR * (fst (actual_scores b) - expected (rating (entry_in sc ?A)) (rating (entry_in sc ?B)))
           + ELO_K_FACTOR * (snd (actual_scores b) - expected (rating (entry_in sc ?B)) (rating (entry_in sc ?A)))"
    unfolding pb ei
    by (simp only: rating_sum_inc rating_sum_add[OF p1] rating_sum_add[OF A] sc fst_conv snd_conv)
qed

lemma present_iff_key: "map_of sc n \<noteq> None \<longleftrightarrow> n \<in> set (map fst sc)"
  by (simp add: map_of_eq_None_iff)

lemma participants_Cons:
  "participants (b # bs) = {name (model_A_info b), name (model_B_info b)} \<union> participants bs"
  by (auto simp: participants_def)

lemma participants_cong: "set xs = set ys \<Longrightarrow> participants xs = participants ys"
  by (simp add: participants_def)

lemma fold_process_present:
  "participants bs \<subseteq> set (map fst sc) \<Longrightarrow>
     map fst (fold process_battle bs sc) = map fst sc \<and>
     (\<Sum>p\<leftarrow>fold process_battle bs sc. battlesPlayed (snd p))
        = (\<Sum>p\<leftarrow>sc. battlesPlayed (snd p)) + 2 * length bs \<and>
     (\<Sum>p\<leftarrow>fold process_battle bs sc. rating (snd p)) = (\<Sum>p\<leftarrow>sc. rating (snd p))"
proof (induction bs arbitrary: sc)
  case Nil
  show ?case by simp
next
  case (Cons b bs)
  let ?A = "name (model_A_info b)" and ?B = "name (model_B_info b)"
  from Cons.prems have A: "map_of sc ?A \<noteq> None" and B: "map_of sc ?B \<noteq> None"
    by (simp_all only: present_iff_key participants_Cons) auto
  note step = process_battle_present[OF A B]
  have zero: "ELO_K_FACTOR * (fst (actual_scores b) - expected (rating (entry_in sc ?A)) (rating (entry_in sc ?B)))
        + ELO_K_FACTOR * (snd (actual_scores b) - expected (rating (entry_in sc ?B)) (rating (entry_in sc ?A))) = 0"
    (is "?K * (?sa - ?ea) + ?K * (?sb - ?eb) = 0")
  proof -
    have "?K * (?sa - ?ea) + ?K * (?sb - ?eb) = ?K * ((?sa + ?sb) - (?ea + ?eb))"
      by (simp add: algebra_simps)
    then show ?thesis by (simp only: actual_scores_sum expected_sum) simp
  qed
  from Cons.prems have sub: "participants bs \<subseteq> set (map fst (process_battle b sc))"
    by (simp add: step(1) participants_Cons)
  from Cons.IH[OF sub] step zero show ?case by simp
qed

lemma update_new_key: "k \<notin> set (map fst al) \<Longrightarrow> AList.update k v al = al @ [(k, v)]"
  by (induction al) auto

lemma fold_update_distinct:
  "distinct (map fst acc @ ns) \<Longrightarrow>
   fold (\<lambda>n sc. AList.update n d sc) ns acc = acc @ map (\<lambda>n. (n, d)) ns"
proof (induction ns arbitrary: acc)
  case Nil
  show ?case by simp
next
  case (Cons n ns)
  from Cons.prems have new: "n \<notin> set (map fst acc)" by auto
  from Cons.prems have "distinct (map fst (acc @ [(n, d)]) @ ns)" by auto
  from Cons.IH[OF this] show ?case by (simp add: update_new_key[OF new])
qed

lemma init_scores_distinct:
  "distinct ns \<Longrightarrow> init_scores ns = map (\<lambda>n. (n, default_entry)) ns"
  using fold_update_distinct[of "[]" ns default_entry] by (simp add: init_scores_def)

lemma init_scores_played: "distinct ns \<Longrightarrow> (\<Sum>p\<leftarrow>init_scores ns. battlesPlayed (snd p)) = 0"
  by (simp add: init_scores_distinct default_entry_def comp_def)

lemma init_scores_rating:
  "distinct ns \<Longrightarrow> (\<Sum>p\<leftarrow>init_scores ns. rating (snd p)) = ELO_DEFAULT_RATING * real (length ns)"
  by (simp add: init_scores_distinct default_entry_def comp_def sum_list_triv)

lemma participants_sorted: "participants (array_sort by_start_asc bs) = participants bs"
  by (rule participants_cong) (simp add: array_sort_asc)

lemma calculateElo_present:
  "participants (array_sort by_start_asc bs) \<subseteq> set (map fst (init_scores (modelNames bs)))"
  by (simp add: participants_sorted keys_init_scores distinct_modelNames set_modelNames)

lemma calculateElo_keys: "map fst (fst (calculateElo bs)) = modelNames bs"
  using fold_process_present[OF calculateElo_present, of bs]
  by (simp add: calculateElo_def Let_def keys_init_scores distinct_modelNames)

lemma card_participants: "card (participants bs) = length (modelNames bs)"
  using distinct_card[OF distinct_modelNames, of bs] by (simp add: set_modelNames)

lemma rating_total:
  "(\<Sum>p\<leftarrow>fst (calculateElo bs). rating (snd p)) = ELO_DEFAULT_RATING * real (card (participants bs))"
  using fold_process_present[OF calculateElo_present, of bs]
  by (simp add: calculateElo_def Let_def init_scores_rating distinct_modelNames card_participants)

lemma rating_delta_opposite:
  "rating (entry_in (process_battle b sc) (name (model_A_info b))) - rating (entry_in sc (name (model_A_info b)))
     = - (rating (entry_in (process_battle b sc) (name (model_B_info b))) - rating (entry_in sc (name (model_B_info b))))"
proof -
  let ?A = "name (model_A_info b)" and ?B = "name (model_B_info b)"
  let ?ea = "expected (rating (entry_in sc ?A)) (rating (entry_in sc ?B))"
  let ?eb = "expected (rating (entry_in sc ?B)) (rating (entry_in sc ?A))"
  have e: "?eb = 1 - ?ea" using expected_sum[of "rating (entry_in sc ?A)" "rating (entry_in sc ?B)"] by simp
  have s: "snd (actual_scores b) = 1 - fst (actual_scores b)" using actual_scores_sum[of b] by simp
  show ?thesis
  proof (cases "?A = ?B")
    case True
    then show ?thesis
      by (simp add: entry_in_process_battle Let_def add_rating_def inc_played_def s
            expected_same algebra_simps)
  next
    case False
    then show ?thesis
      by (simp add: entry_in_process_battle Let_def add_rating_def inc_played_def e s
            algebra_simps)
  qed
qed

section \<open>Comparing expected scores\<close>

lemma half_less_logistic: "0 < (x::real) \<Longrightarrow> x < 1 \<Longrightarrow> 1 / 2 < 1 / (1 + x)"
  by (simp add: field_simps)

lemma expected_gt_half:
  assumes lt: "other < own"
  shows "1 / 2 < expected own other"
proof -
  have "10 powr ((other - own) / 400) < (10::real) powr 0"
    using lt by (intro powr_less_mono) simp_all
  then have small: "10 powr ((other - own) / 400) < (1::real)" by simp
  have pos: "0 < 10 powr ((other - own) / 400)" by simp
  show ?thesis
    unfolding expected_def by (rule half_less_logistic[OF pos small])
qed

lemma expected_lt_half: "own < other \<Longrightarrow> expected own other < 1 / 2"
  using expected_gt_half[of own other] expected_sum[of own other] by linarith

section \<open>The processing order and the initial table\<close>

lemma entry_in_init: "entry_in (init_scores ns) n = default_entry"
  by (simp add: entry_in_def map_of_init_scores)

lemma entry_in_empty: "entry_in [] n = default_entry"
  by (simp add: entry_in_def)

lemma calculateElo_fold:
  "fst (calculateElo bs) = fold process_battle (snd (calculateElo bs)) (init_scores (modelNames bs))"
  by (simp add: calculateElo_def Let_def)

lemma calculateElo_order: "snd (calculateElo bs) = sort_key timestamp_start bs"
  by (simp add: calculateElo_def Let_def array_sort_asc)

lemma calculateElo_array_unchanged_iff:
  "snd (calculateElo bs) = bs \<longleftrightarrow> sorted (map timestamp_start bs)"
proof
  assume "snd (calculateElo bs) = bs"
  then have "sort_key timestamp_start bs = bs" by (simp only: calculateElo_order)
  then have "map timestamp_start bs = map timestamp_start (sort_key timestamp_start bs)" by simp
  then show "sorted (map timestamp_start bs)" by (simp only: sorted_sort_key)
next
  assume "sorted (map timestamp_start bs)"
  then show "snd (calculateElo bs) = bs" by (simp add: calculateElo_order sort_key_id_if_sorted)
qed

lemma displayBattleList_keeps_array: "snd (displayBattleList battles battleListUl) = battles"
  by (simp add: displayBattleList_def Let_def split: option.splits)

lemma init_scores_cong:
  "set xs = set ys \<Longrightarrow> map_of (init_scores (modelNames xs)) = map_of (init_scores (modelNames ys))"
  by (simp add: map_of_init_scores set_modelNames participants_cong[of xs ys])

lemma sorted_distinct_order:
  assumes "distinct (map timestamp_start zs)" and "sorted (map timestamp_start zs)"
      and "mset bs = mset zs"
  shows "sort_key timestamp_start bs = zs"
proof (rule sort_key_inj_key_eq)
  show "mset bs = mset zs" by fact
  show "sorted (map timestamp_start zs)" by fact
  from assms(3) have "set bs = set zs" by (rule mset_eq_setD)
  with assms(1) show "inj_on timestamp_start (set bs)" by (simp add: distinct_map)
qed

section \<open>Two battles between the same pair\<close>

lemma order_AB:
  "snd (calculateElo [mk_battle ''b1'' ''A'' ''B'' 1 (Some ''A_wins''),
                      mk_battle ''b2'' ''A'' ''B'' 2 (Some ''B_wins'')])
     = [mk_battle ''b1'' ''A'' ''B'' 1 (Some ''A_wins''),
        mk_battle ''b2'' ''A'' ''B'' 2 (Some ''B_wins'')]"
  by (simp add: calculateElo_def Let_def array_sort_def by_start_asc_def mk_battle_def)

lemma order_BA:
  "snd (calculateElo [mk_battle ''b1'' ''A'' ''B'' 2 (Some ''A_wins''),
                      mk_battle ''b2'' ''A'' ''B'' 1 (Some ''B_wins'')])
     = [mk_battle ''b2'' ''A'' ''B'' 1 (Some ''B_wins''),
        mk_battle ''b1'' ''A'' ''B'' 2 (Some ''A_wins'')]"
  by (simp add: calculateElo_def Let_def array_sort_def by_start_asc_def mk_battle_def)

lemma win_then_loss:
  fixes x y :: battle
  assumes x: "name (model_A_info x) = ''A''" "name (model_B_info x) = ''B''" "battle_outcome x = Some ''A_wins''"
      and y: "name (model_A_info y) = ''A''" "name (model_B_info y) = ''B''" "battle_outcome y = Some ''B_wins''"
  shows "rating (entry_in (fold process_battle [x, y] (init_scores ns)) ''A'') = 1516 - 32 * expected 1516 1484"
proof -
  let ?s = "process_battle x (init_scores ns)"
  have a: "rating (entry_in ?s ''A'') = 1516"
    by (simp add: entry_in_process_battle Let_def x entry_in_init actual_scores_def expected_same
          add_rating_def inc_played_def default_entry_def ELO_K_FACTOR_def ELO_DEFAULT_RATING_def)
  have b: "rating (entry_in ?s ''B'') = 1484"
    by (simp add: entry_in_process_battle Let_def x entry_in_init actual_scores_def expected_same
          add_rating_def inc_played_def default_entry_def ELO_K_FACTOR_def ELO_DEFAULT_RATING_def)
  have "rating (entry_in (process_battle y ?s) ''A'') = 1516 - 32 * expected 1516 1484"
    by (simp add: entry_in_process_battle[of y] Let_def y a b actual_scores_def
          add_rating_def inc_played_def ELO_K_FACTOR_def)
  then show ?thesis by simp
qed

lemma loss_then_win:
  fixes x y :: battle
  assumes x: "name (model_A_info x) = ''A''" "name (model_B_info x) = ''B''" "battle_outcome x = Some ''A_wins''"
      and y: "name (model_A_info y) = ''A''" "name (model_B_info y) = ''B''" "battle_outcome y = Some ''B_wins''"
  shows "rating (entry_in (fold process_battle [y, x] (init_scores ns)) ''A'') = 1516 - 32 * expected 1484 1516"
proof -
  let ?s = "process_battle y (init_scores ns)"
  have a: "rating (entry_in ?s ''A'') = 1484"
    by (simp add: entry_in_process_battle Let_def y entry_in_init actual_scores_def expected_same
          add_rating_def inc_played_def default_entry_def ELO_K_FACTOR_def ELO_DEFAULT_RATING_def)
  have b: "rating (entry_in ?s ''B'') = 1516"
    by (simp add: entry_in_process_battle Let_def y entry_in_init actual_scores_def expected_same
          add_rating_def inc_played_def default_entry_def ELO_K_FACTOR_def ELO_DEFAULT_RATING_def)
  have "rating (entry_in (process_battle x ?s) ''A'') = 1516 - 32 * expected 1484 1516"
    by (simp add: entry_in_process_battle[of x] Let_def x a b actual_scores_def
          add_rating_def inc_played_def ELO_K_FACTOR_def)
  then show ?thesis by simp
qed

section \<open>The table and the entries of the result\<close>

lemmas elo_defs =
  calculateElo_def modelNames_def init_scores_def set_add_def array_sort_def
  process_battle_def ensure_entry_def expected_def actual_scores_def add_rating_def
  inc_played_def mk_battle_def ELO_K_FACTOR_def ELO_DEFAULT_RATING_def default_entry_def
  by_start_asc_def Let_def

lemma table_keys:
  "distinct (map fst (fst (calculateElo bs))) \<and>
   set (map fst (fst (calculateElo bs))) = participants bs"
  by (simp add: calculateElo_keys distinct_modelNames set_modelNames)

lemma table_played_total:
  "(\<Sum>p\<leftarrow>fst (calculateElo bs). battlesPlayed (snd p)) = 2 * length bs"
proof -
  have "(\<Sum>p\<leftarrow>fst (calculateElo bs). battlesPlayed (snd p)) = 2 * length (array_sort by_start_asc bs)"
    using fold_process_present[OF calculateElo_present, of bs]
    by (simp add: calculateElo_def Let_def init_scores_played distinct_modelNames)
  then show ?thesis by (simp add: array_sort_asc)
qed

lemma Object_entries_all:
  "''__proto__'' \<notin> participants bs \<Longrightarrow> Object_entries (fst (calculateElo bs)) = fst (calculateElo bs)"
proof -
  assume "''__proto__'' \<notin> participants bs"
  then have "''__proto__'' \<notin> set (map fst (fst (calculateElo bs)))"
    by (simp add: calculateElo_keys set_modelNames)
  then show ?thesis
    unfolding Object_entries_def by (intro filter_True) force
qed

lemma entries_played_total:
  "''__proto__'' \<notin> participants bs \<Longrightarrow>
   (\<Sum>p\<leftarrow>Object_entries (fst (calculateElo bs)). battlesPlayed (snd p)) = 2 * length bs"
  by (simp add: Object_entries_all table_played_total)

lemma entries_rating_total:
  "''__proto__'' \<notin> participants bs \<Longrightarrow>
   (\<Sum>p\<leftarrow>Object_entries (fst (calculateElo bs)). rating (snd p))
     = ELO_DEFAULT_RATING * real (card (participants bs))"
  by (simp add: Object_entries_all rating_total)

lemma proto_battle_result:
  "fst (calculateElo [mk_battle ''b1'' ''__proto__'' ''X'' 0 None])
     = [(''__proto__'', \<lparr>rating = 1500, battlesPlayed = 1\<rparr>),
        (''X'', \<lparr>rating = 1500, battlesPlayed = 1\<rparr>)]"
  by (simp add: elo_defs)

section \<open>Claims\<close>

text \<open>
  C5: for one battle between P1 and P2 with outcome \<open>P1_wins\<close>, the constants being
  K = 32 and default rating 1500, both expected scores are 0.5 and the result gives P1 the
  rating 1516, P2 the rating 1484, and both one game played.
\<close>

theorem single_battle_example:
  "expected ELO_DEFAULT_RATING ELO_DEFAULT_RATING = 1 / 2 \<and>
   ELO_K_FACTOR = 32 \<and> ELO_DEFAULT_RATING = 1500 \<and>
   fst (calculateElo [mk_battle ''b1'' ''P1'' ''P2'' 0 (Some ''P1_wins'')]) =
     [(''P1'', \<lparr>rating = 1516, battlesPlayed = 1\<rparr>),
      (''P2'', \<lparr>rating = 1484, battlesPlayed = 1\<rparr>)]"
  by (simp add: elo_defs)

text \<open>
  C6: the \<open>battlesPlayed\<close> of the entries of the result add up to twice the number of
  battles. The table that the loop works on has this sum (\<open>table_played_total\<close>), and so
  have the entries when no participant is named \<open>__proto__\<close> (\<open>entries_played_total\<close>).
  A participant of that name has no entry in the result: for one battle between
  \<open>__proto__\<close> and X the only entry is that of X, and the sum is 1, not 2.
\<close>

theorem prototype_name_games_played:
  "Object_entries (fst (calculateElo [mk_battle ''b1'' ''__proto__'' ''X'' 0 None]))
     = [(''X'', \<lparr>rating = 1500, battlesPlayed = 1\<rparr>)] \<and>
   (\<Sum>p\<leftarrow>Object_entries (fst (calculateElo [mk_battle ''b1'' ''__proto__'' ''X'' 0 None])).
        battlesPlayed (snd p)) = 1 \<and>
   (\<Sum>p\<leftarrow>Object_entries (fst (calculateElo [mk_battle ''b1'' ''__proto__'' ''X'' 0 None])).
        battlesPlayed (snd p)) \<noteq> 2 * length [mk_battle ''b1'' ''__proto__'' ''X'' 0 None]"
  by (simp add: proto_battle_result Object_entries_def)

text \<open>
  C10: with exact real arithmetic the two expected scores of a battle add up to 1
  (\<open>expected_sum\<close>), and so do the two actual scores (\<open>actual_scores_sum\<close>); a battle
  changes the ratings of its two participants by opposite amounts
  (\<open>rating_delta_opposite\<close>); the ratings in the table add up to the default rating times
  the number of distinct participants (\<open>rating_total\<close>), and so do those of the entries of
  the result when no participant is named \<open>__proto__\<close> (\<open>entries_rating_total\<close>). A
  participant of that name has no entry in the result: for one battle between
  \<open>__proto__\<close> and X the ratings of the entries add up to 1500, not to 3000.
\<close>

theorem prototype_name_rating_total:
  "Object_entries (fst (calculateElo [mk_battle ''b1'' ''__proto__'' ''X'' 0 None]))
     = [(''X'', \<lparr>rating = 1500, battlesPlayed = 1\<rparr>)] \<and>
   (\<Sum>p\<leftarrow>Object_entries (fst (calculateElo [mk_battle ''b1'' ''__proto__'' ''X'' 0 None])).
        rating (snd p)) = 1500 \<and>
   ELO_DEFAULT_RATING * real (card (participants [mk_battle ''b1'' ''__proto__'' ''X'' 0 None]))
     = 3000 \<and>
   (\<Sum>p\<leftarrow>Object_entries (fst (calculateElo [mk_battle ''b1'' ''__proto__'' ''X'' 0 None])).
        rating (snd p))
     \<noteq> ELO_DEFAULT_RATING
         * real (card (participants [mk_battle ''b1'' ''__proto__'' ''X'' 0 None]))"
proof -
  have "participants [mk_battle ''b1'' ''__proto__'' ''X'' 0 None] = {''__proto__'', ''X''}"
    by (auto simp: participants_def mk_battle_def)
  then have "ELO_DEFAULT_RATING * real (card (participants [mk_battle ''b1'' ''__proto__'' ''X'' 0 None])) = 3000"
    by (simp add: ELO_DEFAULT_RATING_def)
  then show ?thesis
    by (simp add: proto_battle_result Object_entries_def)
qed

text \<open>
  C1, as the code has it: \<open>calculateElo\<close> applies the loop body to the battles in
  processing order (\<open>calculateElo_fold\<close>). Both expected scores of a battle are computed
  from the ratings that both sides had before the battle. In a battle between two different
  names the rating of each side becomes rating + K * (actual score - expected score), with
  expected score 1 / (1 + 10^((rating of the other - own rating) / 400)), every operation
  being that of the arithmetic in use: the rounded one of doubles in the script, and in
  exact real arithmetic a change by exactly K * (actual score - expected score). In a
  battle of a name against itself the one entry receives both changes, one after the other.
\<close>

theorem rating_update_simultaneous:
  "(name (model_A_info b) \<noteq> name (model_B_info b) \<longrightarrow>
      rating (entry_in (process_battle_with ar b sc) (name (model_A_info b)))
        = ar_add ar (rating (entry_in sc (name (model_A_info b))))
            (ar_mul ar ELO_K_FACTOR (ar_sub ar (fst (actual_scores b))
               (expected_with ar (rating (entry_in sc (name (model_A_info b))))
                                 (rating (entry_in sc (name (model_B_info b))))))) \<and>
      rating (entry_in (process_battle_with ar b sc) (name (model_B_info b)))
        = ar_add ar (rating (entry_in sc (name (model_B_info b))))
            (ar_mul ar ELO_K_FACTOR (ar_sub ar (snd (actual_scores b))
               (expected_with ar (rating (entry_in sc (name (model_B_info b))))
                                 (rating (entry_in sc (name (model_A_info b))))))) \<and>
      rating (entry_in (process_battle b sc) (name (model_A_info b)))
        = rating (entry_in sc (name (model_A_info b)))
          + ELO_K_FACTOR * (fst (actual_scores b)
              - 1 / (1 + 10 powr ((rating (entry_in sc (name (model_B_info b)))
                                    - rating (entry_in sc (name (model_A_info b)))) / 400))) \<and>
      rating (entry_in (process_battle b sc) (name (model_B_info b)))
        = rating (entry_in sc (name (model_B_info b)))
          + ELO_K_FACTOR * (snd (actual_scores b)
              - 1 / (1 + 10 powr ((rating (entry_in sc (name (model_A_info b)))
                                    - rating (entry_in sc (name (model_B_info b)))) / 400)))) \<and>
   (name (model_A_info b) = name (model_B_info b) \<longrightarrow>
      rating (entry_in (process_battle_with ar b sc) (name (model_A_info b)))
        = ar_add ar
            (ar_add ar (rating (entry_in sc (name (model_A_info b))))
               (ar_mul ar ELO_K_FACTOR (ar_sub ar (fst (actual_scores b))
                  (expected_with ar (rating (entry_in sc (name (model_A_info b))))
                                    (rating (entry_in sc (name (model_A_info b))))))))
            (ar_mul ar ELO_K_FACTOR (ar_sub ar (snd (actual_scores b))
               (expected_with ar (rating (entry_in sc (name (model_A_info b))))
                                 (rating (entry_in sc (name (model_A_info b))))))) \<and>
      rating (entry_in (process_battle b sc) (name (model_A_info b)))
        = rating (entry_in sc (name (model_A_info b)))
          + ELO_K_FACTOR * (fst (actual_scores b)
              - expected (rating (entry_in sc (name (model_A_info b))))
                         (rating (entry_in sc (name (model_A_info b)))))
          + ELO_K_FACTOR * (snd (actual_scores b)
              - expected (rating (entry_in sc (name (model_A_info b))))
                         (rating (entry_in sc (name (model_A_info b))))))"
  by (simp add: entry_in_process_battle entry_in_process_battle_with Let_def add_rating_def
        add_rating_with_def inc_played_def expected_def)

text \<open>
  The theorem in exact arithmetic, at a battle that P2 wins against P1 and at a tie of P1
  against itself.
\<close>

theorem rating_update_simultaneous_witness:
  "''P1'' \<noteq> ''P2'' \<and>
   rating (entry_in (process_battle_with exact (mk_battle ''b1'' ''P1'' ''P2'' 0 (Some ''P2_wins'')) []) ''P1'') = 1484 \<and>
   rating (entry_in (process_battle_with exact (mk_battle ''b1'' ''P1'' ''P2'' 0 (Some ''P2_wins'')) []) ''P2'') = 1516 \<and>
   rating (entry_in (process_battle (mk_battle ''b1'' ''P1'' ''P2'' 0 (Some ''P2_wins'')) []) ''P1'') = 1484 \<and>
   rating (entry_in (process_battle (mk_battle ''b1'' ''P1'' ''P2'' 0 (Some ''P2_wins'')) []) ''P2'') = 1516 \<and>
   rating (entry_in (process_battle_with exact (mk_battle ''b1'' ''P1'' ''P1'' 0 None) []) ''P1'') = 1500 \<and>
   rating (entry_in (process_battle (mk_battle ''b1'' ''P1'' ''P1'' 0 None) []) ''P1'') = 1500"
  using rating_update_simultaneous[of "mk_battle ''b1'' ''P1'' ''P2'' 0 (Some ''P2_wins'')" exact "[]"]
        rating_update_simultaneous[of "mk_battle ''b1'' ''P1'' ''P1'' 0 None" exact "[]"]
  by (simp add: mk_battle_def entry_in_empty actual_scores_def default_entry_def
        ELO_DEFAULT_RATING_def ELO_K_FACTOR_def expected_same expected_with_def exact_def)

text \<open>
  A battle of X against itself with outcome \<open>X_wins\<close>: the slot A change of +16 and the
  slot B change of -16 both reach the entry of X, whose rating stays 1500 and is not
  1500 + K * (1 - 0.5).
\<close>

theorem self_battle_counterexample:
  "rating (entry_in (fst (calculateElo [mk_battle ''b1'' ''X'' ''X'' 0 (Some ''X_wins'')])) ''X'')
     \<noteq> ELO_DEFAULT_RATING
         + ELO_K_FACTOR * (fst (actual_scores (mk_battle ''b1'' ''X'' ''X'' 0 (Some ''X_wins'')))
                            - expected ELO_DEFAULT_RATING ELO_DEFAULT_RATING)"
  by (simp add: elo_defs entry_in_def)

text \<open>
  C2: the processing order is the input sorted by start time, ascending and stable (the
  battles of one start time keep their input order), and the result is the loop run over
  that order. When the start times are distinct, any arrangement \<open>bs\<close> of the battles
  \<open>zs\<close> listed by ascending start time is processed in the order \<open>zs\<close> and gives the
  entries obtained by applying the updates to \<open>zs\<close> one after the other.
\<close>

theorem processing_order:
  "sorted (map timestamp_start (snd (calculateElo bs))) \<and>
   mset (snd (calculateElo bs)) = mset bs \<and>
   filter (\<lambda>b. timestamp_start b = t) (snd (calculateElo bs)) = filter (\<lambda>b. timestamp_start b = t) bs \<and>
   fst (calculateElo bs) = fold process_battle (snd (calculateElo bs)) (init_scores (modelNames bs)) \<and>
   (distinct (map timestamp_start zs) \<and> sorted (map timestamp_start zs) \<and> mset bs = mset zs \<longrightarrow>
      snd (calculateElo bs) = zs \<and>
      map_of (fst (calculateElo bs)) = map_of (fold process_battle zs (init_scores (modelNames zs))))"
proof -
  have manual: "snd (calculateElo bs) = zs \<and>
      map_of (fst (calculateElo bs)) = map_of (fold process_battle zs (init_scores (modelNames zs)))"
    if h: "distinct (map timestamp_start zs)" "sorted (map timestamp_start zs)" "mset bs = mset zs"
  proof -
    have ord: "snd (calculateElo bs) = zs"
      by (simp only: calculateElo_order sorted_distinct_order[OF h])
    from h(3) have "set bs = set zs" by (rule mset_eq_setD)
    then have "map_of (init_scores (modelNames bs)) = map_of (init_scores (modelNames zs))"
      by (rule init_scores_cong)
    then have "map_of (fold process_battle zs (init_scores (modelNames bs)))
        = map_of (fold process_battle zs (init_scores (modelNames zs)))"
      by (simp only: map_of_fold_process)
    with ord show ?thesis by (simp only: calculateElo_fold[of bs])
  qed
  have "sorted (map timestamp_start (snd (calculateElo bs)))"
    by (simp add: calculateElo_order)
  moreover have "mset (snd (calculateElo bs)) = mset bs"
    by (simp add: calculateElo_order)
  moreover have "filter (\<lambda>b. timestamp_start b = t) (snd (calculateElo bs)) = filter (\<lambda>b. timestamp_start b = t) bs"
    by (simp only: calculateElo_order sort_key_stable)
  ultimately show ?thesis using manual calculateElo_fold[of bs] by blast
qed

text \<open>Three battles among X, Y and Z, given in the order third, first, second.\<close>

theorem processing_order_witness:
  "distinct (map timestamp_start [mk_battle ''b1'' ''X'' ''Y'' 10 (Some ''X_wins''),
                                  mk_battle ''b2'' ''Y'' ''Z'' 20 (Some ''Z_wins''),
                                  mk_battle ''b3'' ''Z'' ''X'' 30 (Some ''tie'')]) \<and>
   sorted (map timestamp_start [mk_battle ''b1'' ''X'' ''Y'' 10 (Some ''X_wins''),
                                  mk_battle ''b2'' ''Y'' ''Z'' 20 (Some ''Z_wins''),
                                  mk_battle ''b3'' ''Z'' ''X'' 30 (Some ''tie'')]) \<and>
   mset [mk_battle ''b3'' ''Z'' ''X'' 30 (Some ''tie''),
         mk_battle ''b1'' ''X'' ''Y'' 10 (Some ''X_wins''),
         mk_battle ''b2'' ''Y'' ''Z'' 20 (Some ''Z_wins'')]
     = mset [mk_battle ''b1'' ''X'' ''Y'' 10 (Some ''X_wins''),
             mk_battle ''b2'' ''Y'' ''Z'' 20 (Some ''Z_wins''),
             mk_battle ''b3'' ''Z'' ''X'' 30 (Some ''tie'')] \<and>
   snd (calculateElo [mk_battle ''b3'' ''Z'' ''X'' 30 (Some ''tie''),
                      mk_battle ''b1'' ''X'' ''Y'' 10 (Some ''X_wins''),
                      mk_battle ''b2'' ''Y'' ''Z'' 20 (Some ''Z_wins'')])
     = [mk_battle ''b1'' ''X'' ''Y'' 10 (Some ''X_wins''),
        mk_battle ''b2'' ''Y'' ''Z'' 20 (Some ''Z_wins''),
        mk_battle ''b3'' ''Z'' ''X'' 30 (Some ''tie'')] \<and>
   map_of (fst (calculateElo [mk_battle ''b3'' ''Z'' ''X'' 30 (Some ''tie''),
                      mk_battle ''b1'' ''X'' ''Y'' 10 (Some ''X_wins''),
                      mk_battle ''b2'' ''Y'' ''Z'' 20 (Some ''Z_wins'')]))
     = map_of (fold process_battle [mk_battle ''b1'' ''X'' ''Y'' 10 (Some ''X_wins''),
                                    mk_battle ''b2'' ''Y'' ''Z'' 20 (Some ''Z_wins''),
                                    mk_battle ''b3'' ''Z'' ''X'' 30 (Some ''tie'')]
                 (init_scores (modelNames [mk_battle ''b1'' ''X'' ''Y'' 10 (Some ''X_wins''),
                                    mk_battle ''b2'' ''Y'' ''Z'' 20 (Some ''Z_wins''),
                                    mk_battle ''b3'' ''Z'' ''X'' 30 (Some ''tie'')])))"
proof -
  let ?b1 = "mk_battle ''b1'' ''X'' ''Y'' 10 (Some ''X_wins'')"
  let ?b2 = "mk_battle ''b2'' ''Y'' ''Z'' 20 (Some ''Z_wins'')"
  let ?b3 = "mk_battle ''b3'' ''Z'' ''X'' 30 (Some ''tie'')"
  have d: "distinct (map timestamp_start [?b1, ?b2, ?b3])" by (simp add: mk_battle_def)
  have s: "sorted (map timestamp_start [?b1, ?b2, ?b3])" by (simp add: mk_battle_def)
  have m: "mset [?b3, ?b1, ?b2] = mset [?b1, ?b2, ?b3]" by simp
  from processing_order[of "[?b3, ?b1, ?b2]" 0 "[?b1, ?b2, ?b3]"] d s m
  show ?thesis by blast
qed

text \<open>
  C3: computing the ratings leaves the caller's array as it was. The code sorts that array
  in place (line 44), so an array that is not in ascending start-time order comes back
  reordered; \<open>displayBattleList\<close> sorts a copy (line 110) and leaves it alone.
\<close>

theorem calculateElo_reorders_callers_array:
  "snd (calculateElo [mk_battle ''late'' ''X'' ''Y'' 2 None, mk_battle ''early'' ''X'' ''Y'' 1 None])
     = [mk_battle ''early'' ''X'' ''Y'' 1 None, mk_battle ''late'' ''X'' ''Y'' 2 None] \<and>
   snd (calculateElo [mk_battle ''late'' ''X'' ''Y'' 2 None, mk_battle ''early'' ''X'' ''Y'' 1 None])
     \<noteq> [mk_battle ''late'' ''X'' ''Y'' 2 None, mk_battle ''early'' ''X'' ''Y'' 1 None] \<and>
   snd (displayBattleList [mk_battle ''late'' ''X'' ''Y'' 2 None, mk_battle ''early'' ''X'' ''Y'' 1 None] (Some []))
     = [mk_battle ''late'' ''X'' ''Y'' 2 None, mk_battle ''early'' ''X'' ''Y'' 1 None]"
  by (simp add: calculateElo_def Let_def array_sort_def by_start_asc_def mk_battle_def
        displayBattleList_def)

text \<open>
  C4: a battle whose outcome is neither \<open>modelA_wins\<close> nor \<open>modelB_wins\<close> gets the actual
  scores (0.5, 0.5); it is processed like any other battle: both ratings receive the tie
  update and both counters are incremented.
\<close>

theorem unknown_outcome_is_tie:
  assumes "battle_outcome b \<noteq> Some (name (model_A_info b) @ ''_wins'')"
      and "battle_outcome b \<noteq> Some (name (model_B_info b) @ ''_wins'')"
  shows "actual_scores b = (1 / 2, 1 / 2) \<and>
     rating (entry_in (process_battle b sc) (name (model_A_info b)))
        = rating (entry_in sc (name (model_A_info b)))
          + ELO_K_FACTOR * (1 / 2 - expected (rating (entry_in sc (name (model_A_info b))))
                                             (rating (entry_in sc (name (model_B_info b))))) \<and>
     rating (entry_in (process_battle b sc) (name (model_B_info b)))
        = rating (entry_in sc (name (model_B_info b)))
          + ELO_K_FACTOR * (1 / 2 - expected (rating (entry_in sc (name (model_B_info b))))
                                             (rating (entry_in sc (name (model_A_info b))))) \<and>
     battlesPlayed (entry_in (process_battle b sc) (name (model_A_info b)))
        = battlesPlayed (entry_in sc (name (model_A_info b)))
          + (if name (model_A_info b) = name (model_B_info b) then 2 else 1) \<and>
     battlesPlayed (entry_in (process_battle b sc) (name (model_B_info b)))
        = battlesPlayed (entry_in sc (name (model_B_info b)))
          + (if name (model_A_info b) = name (model_B_info b) then 2 else 1)"
proof -
  have tie: "actual_scores b = (1 / 2, 1 / 2)"
    using assms by (simp add: actual_scores_def Let_def)
  show ?thesis
    by (simp add: tie entry_in_process_battle Let_def add_rating_def inc_played_def expected_same)
qed

text \<open>A misspelled outcome, \<open>P1 wins\<close> for \<open>P1_wins\<close>.\<close>

theorem unknown_outcome_is_tie_witness:
  "battle_outcome (mk_battle ''b1'' ''P1'' ''P2'' 0 (Some ''P1 wins'')) \<noteq> Some (''P1'' @ ''_wins'') \<and>
   battle_outcome (mk_battle ''b1'' ''P1'' ''P2'' 0 (Some ''P1 wins'')) \<noteq> Some (''P2'' @ ''_wins'') \<and>
   actual_scores (mk_battle ''b1'' ''P1'' ''P2'' 0 (Some ''P1 wins'')) = (1 / 2, 1 / 2) \<and>
   fst (calculateElo [mk_battle ''b1'' ''P1'' ''P2'' 0 (Some ''P1 wins'')]) =
     [(''P1'', \<lparr>rating = 1500, battlesPlayed = 1\<rparr>), (''P2'', \<lparr>rating = 1500, battlesPlayed = 1\<rparr>)]"
  using unknown_outcome_is_tie[of "mk_battle ''b1'' ''P1'' ''P2'' 0 (Some ''P1 wins'')" "[]"]
  by (simp add: elo_defs)

text \<open>
  C7: A beats B and B beats A, at start times 1 and 2. Exchanging the two start times,
  outcomes unchanged, changes the final rating of A: it is below 1500 when A wins first
  and above 1500 when A wins last.
\<close>

theorem update_order_matters:
  "ELO_K_FACTOR \<noteq> 0 \<and>
   rating (entry_in (fst (calculateElo [mk_battle ''b1'' ''A'' ''B'' 1 (Some ''A_wins''),
                                        mk_battle ''b2'' ''A'' ''B'' 2 (Some ''B_wins'')])) ''A'')
   \<noteq> rating (entry_in (fst (calculateElo [mk_battle ''b1'' ''A'' ''B'' 2 (Some ''A_wins''),
                                          mk_battle ''b2'' ''A'' ''B'' 1 (Some ''B_wins'')])) ''A'')"
proof -
  have 1: "rating (entry_in (fst (calculateElo [mk_battle ''b1'' ''A'' ''B'' 1 (Some ''A_wins''),
                                        mk_battle ''b2'' ''A'' ''B'' 2 (Some ''B_wins'')])) ''A'')
            = 1516 - 32 * expected 1516 1484"
    unfolding calculateElo_fold order_AB by (rule win_then_loss) (simp_all add: mk_battle_def)
  have 2: "rating (entry_in (fst (calculateElo [mk_battle ''b1'' ''A'' ''B'' 2 (Some ''A_wins''),
                                          mk_battle ''b2'' ''A'' ''B'' 1 (Some ''B_wins'')])) ''A'')
            = 1516 - 32 * expected 1484 1516"
    unfolding calculateElo_fold order_BA by (rule loss_then_win) (simp_all add: mk_battle_def)
  have "expected 1484 1516 < 1 / 2" "1 / 2 < expected 1516 1484"
    using expected_lt_half[of 1484 1516] expected_gt_half[of 1484 1516] by simp_all
  then show ?thesis unfolding 1 2 by (simp add: ELO_K_FACTOR_def)
qed

text \<open>
  C8: the result is a function of the array content and of nothing else. The one thing a
  call changes is the order of the array, and a second call on the array as the first one
  left it returns the same entries for the same names. The empty array gives an empty
  object.
\<close>

theorem recomputation_same_result:
  "map_of (fst (calculateElo (snd (calculateElo bs)))) = map_of (fst (calculateElo bs)) \<and>
   snd (calculateElo (snd (calculateElo bs))) = snd (calculateElo bs) \<and>
   calculateElo [] = ([], [])"
proof -
  let ?s = "snd (calculateElo bs)"
  have again: "snd (calculateElo ?s) = ?s"
    by (simp add: calculateElo_order sort_key_id_if_sorted)
  have "set ?s = set bs" by (simp add: calculateElo_order)
  then have "map_of (init_scores (modelNames ?s)) = map_of (init_scores (modelNames bs))"
    by (rule init_scores_cong)
  then have "map_of (fold process_battle ?s (init_scores (modelNames ?s)))
      = map_of (fold process_battle ?s (init_scores (modelNames bs)))"
    by (simp only: map_of_fold_process)
  then have "map_of (fst (calculateElo ?s)) = map_of (fst (calculateElo bs))"
    by (simp only: calculateElo_fold[of ?s] calculateElo_fold[of bs] again)
  moreover have "calculateElo [] = ([], [])"
    by (simp add: calculateElo_def modelNames_def init_scores_def array_sort_def)
  ultimately show ?thesis using again by simp
qed

text \<open>
  C9: looking up an identifier that no battle of the collection has finds nothing, and
  \<open>displayBattleDetails\<close> then shows the not-found message.
\<close>

theorem unknown_id_not_found:
  assumes "battleId \<notin> battle_id ` set battles"
  shows "find_battle battleId battles = None \<and>
         displayBattleDetails details_html battleId battles (Some content)
           = Some ''<p>Battle not found.</p>''"
proof -
  from assms have "find_battle battleId battles = None"
    by (auto simp: find_battle_def find_None_iff)
  then show ?thesis by (simp add: displayBattleDetails_def)
qed

text \<open>Three battles b1, b2, b3 and the identifier b4.\<close>

theorem unknown_id_not_found_witness:
  "''b4'' \<notin> battle_id ` set [mk_battle ''b1'' ''X'' ''Y'' 10 (Some ''X_wins''),
                              mk_battle ''b2'' ''Y'' ''Z'' 20 (Some ''Z_wins''),
                              mk_battle ''b3'' ''Z'' ''X'' 30 None] \<and>
   find_battle ''b4'' [mk_battle ''b1'' ''X'' ''Y'' 10 (Some ''X_wins''),
                       mk_battle ''b2'' ''Y'' ''Z'' 20 (Some ''Z_wins''),
                       mk_battle ''b3'' ''Z'' ''X'' 30 None] = None \<and>
   displayBattleDetails (\<lambda>b. battle_id b) ''b4''
       [mk_battle ''b1'' ''X'' ''Y'' 10 (Some ''X_wins''),
        mk_battle ''b2'' ''Y'' ''Z'' 20 (Some ''Z_wins''),
        mk_battle ''b3'' ''Z'' ''X'' 30 None] (Some [])
     = Some ''<p>Battle not found.</p>''"
  using unknown_id_not_found[of "''b4''" "[mk_battle ''b1'' ''X'' ''Y'' 10 (Some ''X_wins''),
                       mk_battle ''b2'' ''Y'' ''Z'' 20 (Some ''Z_wins''),
                       mk_battle ''b3'' ''Z'' ''X'' 30 None]" "\<lambda>b. battle_id b" "[]"]
  by (simp add: mk_battle_def)

end
